theory Spec2Isabelle
  imports Main "HOL-Library.Word" "HOL-Library.Sublist"
begin

section \<open>Strings of the profile buffer\<close>

text \<open>
  A \<^verbatim>\<open>StringRef\<close> is a view of bytes; it is modelled by \<^typ>\<open>string\<close>. Its
  \<^verbatim>\<open>==\<close> is equality of the byte sequences. Its \<^verbatim>\<open><\<close> compares the
  common prefix byte by byte (bytes as unsigned values) and, when one string is a
  prefix of the other, the lengths.
\<close>

fun StringRef_less :: "string \<Rightarrow> string \<Rightarrow> bool" where
  "StringRef_less [] [] = False"
| "StringRef_less [] (y # ys) = True"
| "StringRef_less (x # xs) [] = False"
| "StringRef_less (x # xs) (y # ys) =
     (if x = y then StringRef_less xs ys else (of_char x :: nat) < of_char y)"

text \<open>
  \<^verbatim>\<open>StringRef::find(Str)\<close> returns the first index at which \<^verbatim>\<open>Str\<close> occurs,
  or \<^verbatim>\<open>npos\<close>, which is \<^term>\<open>None\<close> here. The empty string occurs at index 0
  of every string.
\<close>

fun StringRef_find :: "string \<Rightarrow> string \<Rightarrow> nat option" where
  "StringRef_find [] Str = (if Str = [] then Some 0 else None)"
| "StringRef_find (c # cs) Str =
     (if prefix Str (c # cs) then Some 0 else map_option Suc (StringRef_find cs Str))"


section \<open>Location\<close>

record Location =
  IsSymbol :: bool
  Name :: string
  Offset :: "64 word"

text \<open>The two constructors of \<^verbatim>\<open>struct Location\<close>.\<close>

definition Location_of_offset :: "64 word \<Rightarrow> Location" where
  "Location_of_offset Off = \<lparr>IsSymbol = False, Name = ''[unknown]'', Offset = Off\<rparr>"

definition mkLocation :: "bool \<Rightarrow> string \<Rightarrow> 64 word \<Rightarrow> Location" where
  "mkLocation S N Off = \<lparr>IsSymbol = S, Name = N, Offset = Off\<rparr>"

text \<open>\<^verbatim>\<open>Location::operator==\<close>\<close>

definition Location_eq :: "Location \<Rightarrow> Location \<Rightarrow> bool" where
  "Location_eq L RHS \<longleftrightarrow>
     IsSymbol L = IsSymbol RHS \<and>
     Name L = Name RHS \<and>
     (Name L = ''[heap]'' \<or> Offset L = Offset RHS)"

text \<open>
  \<^verbatim>\<open>Location::operator<\<close>. The comparison of the two \<^verbatim>\<open>bool\<close>s is that of
  their integer values, false before true, which is the order of \<^typ>\<open>bool\<close>.
\<close>

definition Location_less :: "Location \<Rightarrow> Location \<Rightarrow> bool" where
  "Location_less L RHS =
     (if IsSymbol L \<noteq> IsSymbol RHS then IsSymbol L < IsSymbol RHS
      else if Name L \<noteq> Name RHS then StringRef_less (Name L) (Name RHS)
      else Name L \<noteq> ''[heap]'' \<and> Offset L < Offset RHS)"

text \<open>
  The lexicographic order on triples (discriminator, name, offset), written from the
  specification's words, to compare \<^const>\<open>Location_less\<close> with.
\<close>

definition lex_triple_less :: "bool \<times> string \<times> 64 word \<Rightarrow> bool \<times> string \<times> 64 word \<Rightarrow> bool" where
  "lex_triple_less a b =
     (case a of (s1, n1, o1) \<Rightarrow> case b of (s2, n2, o2) \<Rightarrow>
        s1 < s2 \<or> (s1 = s2 \<and> (StringRef_less n1 n2 \<or> (n1 = n2 \<and> o1 < o2))))"

definition Location_key :: "Location \<Rightarrow> bool \<times> string \<times> 64 word" where
  "Location_key L = (IsSymbol L, Name L, Offset L)"

text \<open>
  \<^verbatim>\<open>DenseMapInfo<bolt::Location>\<close>: the two reserved keys, which a map cannot
  hold (\<^verbatim>\<open>static_cast<uint64_t>(-1LL)\<close> and \<^verbatim>\<open>(-2LL)\<close> are the two
  largest offsets), and \<^verbatim>\<open>isEqual\<close>.
\<close>

definition getEmptyKey :: Location where
  "getEmptyKey = mkLocation True [] (- 1)"

definition getTombstoneKey :: Location where
  "getTombstoneKey = mkLocation True [] (- 2)"

definition isEqual :: "Location \<Rightarrow> Location \<Rightarrow> bool" where
  "isEqual LHS RHS \<longleftrightarrow>
     IsSymbol LHS = IsSymbol RHS \<and> Name LHS = Name RHS \<and> Offset LHS = Offset RHS"


section \<open>Hash-indexed maps\<close>

text \<open>
  A \<^verbatim>\<open>DenseMap<K, V>\<close> holds at most one entry per class of keys that its
  \<^verbatim>\<open>DenseMapInfo<K>::isEqual\<close> identifies; the hash value only selects where the
  probing starts. It is modelled by the list of its entries together with the key
  equality \<open>eq\<close> in use: \<open>DenseMap_find\<close> is \<^verbatim>\<open>find\<close>, and
  \<open>DenseMap_assign\<close> is \<^verbatim>\<open>M[k] = v\<close>, which overwrites the value of an entry
  with an equal key and adds an entry otherwise.
\<close>

fun DenseMap_find :: "('k \<Rightarrow> 'k \<Rightarrow> bool) \<Rightarrow> ('k \<times> 'v) list \<Rightarrow> 'k \<Rightarrow> 'v option" where
  "DenseMap_find eq [] k = None"
| "DenseMap_find eq ((k', v) # m) k = (if eq k' k then Some v else DenseMap_find eq m k)"

fun DenseMap_assign :: "('k \<Rightarrow> 'k \<Rightarrow> bool) \<Rightarrow> ('k \<times> 'v) list \<Rightarrow> 'k \<Rightarrow> 'v \<Rightarrow> ('k \<times> 'v) list" where
  "DenseMap_assign eq [] k v = [(k, v)]"
| "DenseMap_assign eq ((k', v') # m) k v =
     (if eq k' k then (k', v) # m else (k', v') # DenseMap_assign eq m k v)"


section \<open>Event names\<close>

text \<open>
  \<^verbatim>\<open>DataReader::usesEvent\<close>, over the keys of the \<^verbatim>\<open>StringSet\<close>
  \<^verbatim>\<open>EventNames\<close> in the order its iterator yields them.
\<close>

fun usesEvent :: "string list \<Rightarrow> string \<Rightarrow> bool" where
  "usesEvent [] Nm = False"
| "usesEvent (Event # EventNames) Nm =
     (if StringRef_find Event Nm \<noteq> None then True else usesEvent EventNames Nm)"


section \<open>Branch records\<close>

text \<open>
  Field names that several structs share (\<^verbatim>\<open>Name\<close>, \<^verbatim>\<open>Data\<close>, \<^verbatim>\<open>Used\<close>)
  carry the initials of their struct as a prefix: \<open>FBD_\<close> for
  \<^verbatim>\<open>FuncBranchData\<close>, \<open>FSD_\<close> for \<^verbatim>\<open>FuncSampleData\<close>. The counters
  are \<^verbatim>\<open>int64_t\<close>; they are 64-bit words here, read as signed by \<^const>\<open>sint\<close>.
\<close>

record BranchInfo =
  From :: Location
  To :: Location
  Mispreds :: "64 word"
  Branches :: "64 word"

definition mkBranchInfo :: "Location \<Rightarrow> Location \<Rightarrow> 64 word \<Rightarrow> 64 word \<Rightarrow> BranchInfo" where
  "mkBranchInfo F T M B = \<lparr>From = F, To = T, Mispreds = M, Branches = B\<rparr>"

record FuncBranchData =
  FBD_Name :: string
  FBD_Data :: "BranchInfo list"
  FBD_EntryData :: "BranchInfo list"
  ExecutionCount :: "64 word"
  FBD_Used :: bool
  IntraIndex :: "(64 word \<times> (64 word \<times> nat) list) list"
  InterIndex :: "(64 word \<times> (Location \<times> nat) list) list"
  EntryIndex :: "(64 word \<times> (Location \<times> nat) list) list"

text \<open>The default constructor \<^verbatim>\<open>FuncBranchData()\<close>.\<close>

definition FuncBranchData_empty :: FuncBranchData where
  "FuncBranchData_empty =
     \<lparr>FBD_Name = [], FBD_Data = [], FBD_EntryData = [], ExecutionCount = 0,
      FBD_Used = False, IntraIndex = [], InterIndex = [], EntryIndex = []\<rparr>"

text \<open>
  Reading and writing \<^verbatim>\<open>IntraIndex[OffsetFrom][OffsetTo]\<close>, a map of maps keyed by
  \<^verbatim>\<open>uint64_t\<close>, whose key equality is \<^verbatim>\<open>==\<close>. Writing under a source offset
  that has no inner map yet starts from the empty inner map.
\<close>

definition IntraIndex_find :: "FuncBranchData \<Rightarrow> 64 word \<Rightarrow> 64 word \<Rightarrow> nat option" where
  "IntraIndex_find FBD OffsetFrom OffsetTo =
     (case DenseMap_find (=) (IntraIndex FBD) OffsetFrom of
        None \<Rightarrow> None
      | Some Inner \<Rightarrow> DenseMap_find (=) Inner OffsetTo)"

definition IntraIndex_assign :: "FuncBranchData \<Rightarrow> 64 word \<Rightarrow> 64 word \<Rightarrow> nat \<Rightarrow> FuncBranchData" where
  "IntraIndex_assign FBD OffsetFrom OffsetTo Pos =
     (let Inner = (case DenseMap_find (=) (IntraIndex FBD) OffsetFrom of
                     None \<Rightarrow> [] | Some m \<Rightarrow> m)
      in FBD\<lparr>IntraIndex :=
               DenseMap_assign (=) (IntraIndex FBD) OffsetFrom
                 (DenseMap_assign (=) Inner OffsetTo Pos)\<rparr>)"

text \<open>
  Modelled from the spec: the body of \<^verbatim>\<open>FuncBranchData::bumpBranchCount\<close>, of
  which the header holds the declaration only. The specification says that it
  ``locates or creates the intra-function BranchInfo for that (from,to) pair via
  IntraIndex, increments branch count by 1 and mispredict count by 1 if applicable''.
  \<open>getOrCreateIntra\<close> is the first half: the position that \<^verbatim>\<open>IntraIndex\<close> holds
  for the pair, or else a new record with both counters at 0, appended to
  \<^verbatim>\<open>Data\<close> and entered in the index at its position. An intra-function record
  has both ends in the function itself: the symbol of the function's name, at the two
  offsets. \<open>incrementBranch\<close> is the second half. A position of the index that is
  not a position of \<^verbatim>\<open>Data\<close> is an access outside the vector, the result
  \<^term>\<open>None\<close>.
\<close>

definition getOrCreateIntra ::
    "FuncBranchData \<Rightarrow> 64 word \<Rightarrow> 64 word \<Rightarrow> FuncBranchData \<times> nat" where
  "getOrCreateIntra FBD OffsetFrom OffsetTo =
     (case IntraIndex_find FBD OffsetFrom OffsetTo of
        Some Pos \<Rightarrow> (FBD, Pos)
      | None \<Rightarrow>
          (IntraIndex_assign
             (FBD\<lparr>FBD_Data := FBD_Data FBD @
                [mkBranchInfo (mkLocation True (FBD_Name FBD) OffsetFrom)
                   (mkLocation True (FBD_Name FBD) OffsetTo) 0 0]\<rparr>)
             OffsetFrom OffsetTo (length (FBD_Data FBD)),
           length (FBD_Data FBD)))"

definition incrementBranch :: "BranchInfo \<Rightarrow> bool \<Rightarrow> BranchInfo" where
  "incrementBranch BI Mispred =
     (let BI1 = BI\<lparr>Branches := Branches BI + 1\<rparr>
      in if Mispred then BI1\<lparr>Mispreds := Mispreds BI1 + 1\<rparr> else BI1)"

definition bumpBranchCount ::
    "FuncBranchData \<Rightarrow> 64 word \<Rightarrow> 64 word \<Rightarrow> bool \<Rightarrow> FuncBranchData option" where
  "bumpBranchCount FBD OffsetFrom OffsetTo Mispred =
     (case getOrCreateIntra FBD OffsetFrom OffsetTo of (FBD1, Pos) \<Rightarrow>
        if Pos < length (FBD_Data FBD1)
        then Some (FBD1\<lparr>FBD_Data :=
                      (FBD_Data FBD1)[Pos := incrementBranch (FBD_Data FBD1 ! Pos) Mispred]\<rparr>)
        else None)"

text \<open>A sequence of calls of \<^const>\<open>bumpBranchCount\<close> on one object, in order.\<close>

fun bumpBranchCounts ::
    "FuncBranchData \<Rightarrow> (64 word \<times> 64 word \<times> bool) list \<Rightarrow> FuncBranchData option" where
  "bumpBranchCounts FBD [] = Some FBD"
| "bumpBranchCounts FBD ((OffsetFrom, OffsetTo, Mispred) # Calls) =
     (case bumpBranchCount FBD OffsetFrom OffsetTo Mispred of
        None \<Rightarrow> None
      | Some FBD' \<Rightarrow> bumpBranchCounts FBD' Calls)"

text \<open>
  The invariant of the index that the specification states: every position stored in
  \<^verbatim>\<open>IntraIndex\<close> is a position of \<^verbatim>\<open>Data\<close>, and the record there is the one
  of the pair of offsets it is stored under.
\<close>

definition intraEntry_ok :: "FuncBranchData \<Rightarrow> 64 word \<Rightarrow> 64 word \<Rightarrow> nat \<Rightarrow> bool" where
  "intraEntry_ok FBD OffsetFrom OffsetTo Pos \<longleftrightarrow>
     Pos < length (FBD_Data FBD) \<and>
     From (FBD_Data FBD ! Pos) = mkLocation True (FBD_Name FBD) OffsetFrom \<and>
     To (FBD_Data FBD ! Pos) = mkLocation True (FBD_Name FBD) OffsetTo"

definition IntraIndex_ok :: "FuncBranchData \<Rightarrow> bool" where
  "IntraIndex_ok FBD =
     list_all (\<lambda>(OffsetFrom, Inner).
        list_all (\<lambda>(OffsetTo, Pos). intraEntry_ok FBD OffsetFrom OffsetTo Pos) Inner)
       (IntraIndex FBD)"

text \<open>
  The record of an intra-function pair as the index finds it, and its two counters
  (0 for a pair that has no record).
\<close>

definition intraBranchInfo :: "FuncBranchData \<Rightarrow> 64 word \<Rightarrow> 64 word \<Rightarrow> BranchInfo option" where
  "intraBranchInfo FBD OffsetFrom OffsetTo =
     (case IntraIndex_find FBD OffsetFrom OffsetTo of
        None \<Rightarrow> None
      | Some Pos \<Rightarrow> if Pos < length (FBD_Data FBD) then Some (FBD_Data FBD ! Pos) else None)"

definition intraBranches :: "FuncBranchData \<Rightarrow> 64 word \<Rightarrow> 64 word \<Rightarrow> 64 word" where
  "intraBranches FBD OffsetFrom OffsetTo =
     (case intraBranchInfo FBD OffsetFrom OffsetTo of None \<Rightarrow> 0 | Some BI \<Rightarrow> Branches BI)"

definition intraMispreds :: "FuncBranchData \<Rightarrow> 64 word \<Rightarrow> 64 word \<Rightarrow> 64 word" where
  "intraMispreds FBD OffsetFrom OffsetTo =
     (case intraBranchInfo FBD OffsetFrom OffsetTo of None \<Rightarrow> 0 | Some BI \<Rightarrow> Mispreds BI)"


section \<open>Sample records\<close>











section \<open>Properties of Location\<close>

lemma StringRef_less_irrefl: "\<not> StringRef_less s s"
  by (induction s) auto

text \<open>
  C1. Two locations named \<^verbatim>\<open>[heap]\<close> with the same discriminator are equal under
  \<^verbatim>\<open>operator==\<close> and neither is less than the other under \<^verbatim>\<open>operator<\<close>,
  whatever their offsets. Two locations of which neither is named \<^verbatim>\<open>[heap]\<close> are
  equal exactly when their triples (IsSymbol, Name, Offset) are equal, and ordered
  exactly as these triples are ordered lexicographically.
\<close>

theorem Location_heap_collapse_and_lexicographic:
  "(Name L = ''[heap]'' \<and> Name R = ''[heap]'' \<and> IsSymbol L = IsSymbol R \<longrightarrow>
      Location_eq L R \<and> \<not> Location_less L R \<and> \<not> Location_less R L) \<and>
   (Name L \<noteq> ''[heap]'' \<and> Name R \<noteq> ''[heap]'' \<longrightarrow>
      (Location_eq L R \<longleftrightarrow> Location_key L = Location_key R) \<and>
      (Location_less L R \<longleftrightarrow> lex_triple_less (Location_key L) (Location_key R)))"
  by (auto simp: Location_eq_def Location_less_def lex_triple_less_def Location_key_def
      StringRef_less_irrefl)

theorem Location_heap_collapse_and_lexicographic_witness:
  "(Location_eq (mkLocation True ''[heap]'' 1) (mkLocation True ''[heap]'' 2) \<and>
    \<not> Location_less (mkLocation True ''[heap]'' 1) (mkLocation True ''[heap]'' 2) \<and>
    \<not> Location_less (mkLocation True ''[heap]'' 2) (mkLocation True ''[heap]'' 1)) \<and>
   (Location_eq (mkLocation True ''main'' 16) (mkLocation True ''main'' 32) \<longleftrightarrow>
      Location_key (mkLocation True ''main'' 16) = Location_key (mkLocation True ''main'' 32)) \<and>
   (Location_less (mkLocation True ''main'' 16) (mkLocation True ''main'' 32) \<longleftrightarrow>
      lex_triple_less (Location_key (mkLocation True ''main'' 16))
        (Location_key (mkLocation True ''main'' 32)))"
  using Location_heap_collapse_and_lexicographic
          [of "mkLocation True ''[heap]'' 1" "mkLocation True ''[heap]'' 2"]
        Location_heap_collapse_and_lexicographic
          [of "mkLocation True ''main'' 16" "mkLocation True ''main'' 32"]
  by (simp add: mkLocation_def)


section \<open>Properties of the hash-index keys\<close>

lemma isEqual_iff: "isEqual L R \<longleftrightarrow> L = R"
  by (cases L, cases R) (auto simp: isEqual_def)

lemma DenseMap_find_assign:
  "DenseMap_find isEqual (DenseMap_assign isEqual M k v) k' =
     (if isEqual k k' then Some v else DenseMap_find isEqual M k')"
proof -
  have eq: "isEqual = (=)" by (intro ext) (rule isEqual_iff)
  show ?thesis unfolding eq by (induction M) auto
qed

text \<open>
  C10. \<^verbatim>\<open>DenseMapInfo<Location>::isEqual\<close> compares the three fields without
  any exception for \<^verbatim>\<open>[heap]\<close>: it holds exactly of identical locations. Two
  \<^verbatim>\<open>[heap]\<close> locations with the same discriminator and different offsets are
  therefore equal under \<^verbatim>\<open>operator==\<close> and different as keys; neither is a
  reserved key, and in a map keyed by locations (the inner maps of
  \<^verbatim>\<open>InterIndex\<close>, \<^verbatim>\<open>EntryIndex\<close> and \<^verbatim>\<open>EventIndex\<close>) each of the
  two keeps an entry of its own.
\<close>

theorem isEqual_unconditional_heap_entries_distinct:
  "(isEqual L R \<longleftrightarrow> L = R) \<and>
   (Name L = ''[heap]'' \<and> Name R = ''[heap]'' \<and> IsSymbol L = IsSymbol R \<and>
    Offset L \<noteq> Offset R \<longrightarrow>
      Location_eq L R \<and> \<not> isEqual L R \<and>
      \<not> isEqual L getEmptyKey \<and> \<not> isEqual L getTombstoneKey \<and>
      \<not> isEqual R getEmptyKey \<and> \<not> isEqual R getTombstoneKey \<and>
      DenseMap_find isEqual (DenseMap_assign isEqual (DenseMap_assign isEqual M L i) R j) L = Some i \<and>
      DenseMap_find isEqual (DenseMap_assign isEqual (DenseMap_assign isEqual M L i) R j) R = Some j \<and>
      length (DenseMap_assign isEqual (DenseMap_assign isEqual [] L i) R j) = 2)"
proof -
  have key: "isEqual L R \<longleftrightarrow> L = R" by (rule isEqual_iff)
  have reserved: "\<not> isEqual K getEmptyKey \<and> \<not> isEqual K getTombstoneKey"
    if "Name K = ''[heap]''" for K
    using that by (simp add: isEqual_def getEmptyKey_def getTombstoneKey_def mkLocation_def)
  have entries:
    "DenseMap_find isEqual (DenseMap_assign isEqual (DenseMap_assign isEqual M L i) R j) L = Some i \<and>
     DenseMap_find isEqual (DenseMap_assign isEqual (DenseMap_assign isEqual M L i) R j) R = Some j \<and>
     length (DenseMap_assign isEqual (DenseMap_assign isEqual [] L i) R j) = 2"
    if "L \<noteq> R"
    using that by (simp add: DenseMap_find_assign isEqual_iff)
  have eq: "Location_eq L R"
    if "Name L = ''[heap]''" "Name R = ''[heap]''" "IsSymbol L = IsSymbol R"
    using that by (simp add: Location_eq_def)
  have ne: "L \<noteq> R" if "Offset L \<noteq> Offset R" using that by auto
  show ?thesis using key reserved entries eq ne by blast
qed

theorem isEqual_unconditional_heap_entries_distinct_witness:
  "Location_eq (mkLocation True ''[heap]'' 1) (mkLocation True ''[heap]'' 2) \<and>
   \<not> isEqual (mkLocation True ''[heap]'' 1) (mkLocation True ''[heap]'' 2) \<and>
   DenseMap_find isEqual
     (DenseMap_assign isEqual
        (DenseMap_assign isEqual [] (mkLocation True ''[heap]'' 1) (0::nat))
        (mkLocation True ''[heap]'' 2) 1)
     (mkLocation True ''[heap]'' 1) = Some 0 \<and>
   length
     (DenseMap_assign isEqual
        (DenseMap_assign isEqual [] (mkLocation True ''[heap]'' 1) (0::nat))
        (mkLocation True ''[heap]'' 2) 1) = 2"
proof -
  have hyp: "Name (mkLocation True ''[heap]'' 1) = ''[heap]'' \<and>
             Name (mkLocation True ''[heap]'' 2) = ''[heap]'' \<and>
             IsSymbol (mkLocation True ''[heap]'' 1) = IsSymbol (mkLocation True ''[heap]'' 2) \<and>
             Offset (mkLocation True ''[heap]'' 1) \<noteq> Offset (mkLocation True ''[heap]'' 2)"
    by (simp add: mkLocation_def)
  from isEqual_unconditional_heap_entries_distinct
         [of "mkLocation True ''[heap]'' 1" "mkLocation True ''[heap]'' 2" "[]" "0::nat" "1::nat",
          THEN conjunct2, rule_format, OF hyp]
  show ?thesis by blast
qed


section \<open>Properties of usesEvent\<close>

lemma StringRef_find_None_iff: "StringRef_find Event Nm = None \<longleftrightarrow> \<not> sublist Nm Event"
  by (induction Event) (auto simp: sublist_Cons_right)

lemma usesEvent_iff_sublist:
  "usesEvent EventNames Nm \<longleftrightarrow> (\<exists>Event \<in> set EventNames. sublist Nm Event)"
  by (induction EventNames) (simp_all add: StringRef_find_None_iff del: StringRef_find.simps)

text \<open>
  C9. \<^verbatim>\<open>usesEvent(Name)\<close> is true exactly when some event name of the set has
  \<^verbatim>\<open>Name\<close> as a substring (a contiguous run of its bytes); over the empty set it is
  false for every query.
\<close>

theorem usesEvent_iff_substring:
  "(usesEvent EventNames Nm \<longleftrightarrow>
      (\<exists>Event \<in> set EventNames. \<exists>p s. Event = p @ Nm @ s)) \<and>
   usesEvent [] Nm = False"
  by (simp add: usesEvent_iff_sublist sublist_def)

theorem usesEvent_iff_substring_witness:
  "usesEvent [''cycles'', ''branch-misses''] ''miss'' \<and> \<not> usesEvent [] ''miss''"
proof -
  have "''branch-misses'' = ''branch-'' @ ''miss'' @ ''es''" by simp
  then have "\<exists>p s. ''branch-misses'' = p @ ''miss'' @ s" by blast
  then have "\<exists>Event \<in> set [''cycles'', ''branch-misses'']. \<exists>p s. Event = p @ ''miss'' @ s"
    by simp
  then have "usesEvent [''cycles'', ''branch-misses''] ''miss''"
    by (rule usesEvent_iff_substring [THEN conjunct1, THEN iffD2])
  moreover have "\<not> usesEvent [] ''miss''"
    using usesEvent_iff_substring [of "[]" "''miss''"] by blast
  ultimately show ?thesis by (rule conjI)
qed


section \<open>Properties of bumpBranchCount\<close>

lemma DenseMap_find_assign_eq:
  "DenseMap_find (=) (DenseMap_assign (=) M k v) k' =
     (if k = k' then Some v else DenseMap_find (=) M k')"
  by (induction M) auto

lemma DenseMap_find_in_set:
  "DenseMap_find (=) M k = Some v \<Longrightarrow> (k, v) \<in> set M"
  by (induction M) (auto split: if_splits)

lemma set_DenseMap_assign:
  "set (DenseMap_assign (=) M k v) \<subseteq> insert (k, v) (set M)"
  by (induction M) (auto split: if_splits)

lemma IntraIndex_find_assign:
  "IntraIndex_find (IntraIndex_assign FBD f t p) f' t' =
     (if f = f' \<and> t = t' then Some p else IntraIndex_find FBD f' t')"
  by (auto simp: IntraIndex_find_def IntraIndex_assign_def Let_def DenseMap_find_assign_eq
      split: option.splits)

lemma IntraIndex_find_Data_update [simp]:
  "IntraIndex_find (FBD\<lparr>FBD_Data := D\<rparr>) f t = IntraIndex_find FBD f t"
  by (simp add: IntraIndex_find_def)

lemma IntraIndex_ok_iff:
  "IntraIndex_ok FBD \<longleftrightarrow>
     (\<forall>f Inner t p. (f, Inner) \<in> set (IntraIndex FBD) \<longrightarrow> (t, p) \<in> set Inner \<longrightarrow>
        intraEntry_ok FBD f t p)"
  by (fastforce simp: IntraIndex_ok_def list_all_iff)

lemma IntraIndex_find_ok:
  assumes "IntraIndex_ok FBD" "IntraIndex_find FBD f t = Some p"
  shows "intraEntry_ok FBD f t p"
proof -
  from assms(2) obtain Inner where
    "DenseMap_find (=) (IntraIndex FBD) f = Some Inner" "DenseMap_find (=) Inner t = Some p"
    by (auto simp: IntraIndex_find_def split: option.splits)
  then have "(f, Inner) \<in> set (IntraIndex FBD)" "(t, p) \<in> set Inner"
    by (auto dest: DenseMap_find_in_set)
  with assms(1) show ?thesis by (auto simp: IntraIndex_ok_iff)
qed

lemma mkLocation_inject [simp]:
  "mkLocation S N Off = mkLocation S' N' Off' \<longleftrightarrow> S = S' \<and> N = N' \<and> Off = Off'"
  by (simp add: mkLocation_def)

lemma intraEntry_ok_unique:
  "intraEntry_ok FBD f t p \<Longrightarrow> intraEntry_ok FBD f' t' p \<Longrightarrow> f = f' \<and> t = t'"
  by (auto simp: intraEntry_ok_def)

lemma IntraIndex_assign_entries:
  assumes "(f', Inner') \<in> set (IntraIndex (IntraIndex_assign FBD f t p))" "(t', q) \<in> set Inner'"
  shows "(f' = f \<and> t' = t \<and> q = p) \<or>
         (\<exists>Inner. (f', Inner) \<in> set (IntraIndex FBD) \<and> (t', q) \<in> set Inner)"
proof (cases "(f', Inner') \<in> set (IntraIndex FBD)")
  case True
  with assms(2) show ?thesis by blast
next
  case False
  define Inner where "Inner = (case DenseMap_find (=) (IntraIndex FBD) f of None \<Rightarrow> [] | Some m \<Rightarrow> m)"
  have "(f', Inner') \<in> insert (f, DenseMap_assign (=) Inner t p) (set (IntraIndex FBD))"
    using assms(1) set_DenseMap_assign [of "IntraIndex FBD" f "DenseMap_assign (=) Inner t p"]
    by (auto simp: IntraIndex_assign_def Inner_def Let_def)
  with False have eq: "f' = f" "Inner' = DenseMap_assign (=) Inner t p" by auto
  with assms(2) set_DenseMap_assign [of Inner t p]
  have "(t', q) = (t, p) \<or> (t', q) \<in> set Inner" by auto
  then show ?thesis
  proof
    assume "(t', q) = (t, p)" with eq show ?thesis by simp
  next
    assume in_Inner: "(t', q) \<in> set Inner"
    then have "DenseMap_find (=) (IntraIndex FBD) f = Some Inner"
      by (cases "DenseMap_find (=) (IntraIndex FBD) f") (simp_all add: Inner_def)
    then have "(f, Inner) \<in> set (IntraIndex FBD)" by (rule DenseMap_find_in_set)
    with in_Inner eq show ?thesis by blast
  qed
qed

lemma getOrCreateIntra_ok:
  assumes ok: "IntraIndex_ok FBD" and g: "getOrCreateIntra FBD f t = (FBD1, p)"
  shows "IntraIndex_ok FBD1" 
    and "IntraIndex_find FBD1 f t = Some p"
    and "\<And>f' t'. (f', t') \<noteq> (f, t) \<Longrightarrow> IntraIndex_find FBD1 f' t' = IntraIndex_find FBD f' t'"
    and "FBD_Name FBD1 = FBD_Name FBD"
    and "length (FBD_Data FBD) \<le> length (FBD_Data FBD1)"
    and "\<And>q. q < length (FBD_Data FBD) \<Longrightarrow> FBD_Data FBD1 ! q = FBD_Data FBD ! q"
    and "IntraIndex_find FBD f t = None \<Longrightarrow>
           p = length (FBD_Data FBD) \<and> Branches (FBD_Data FBD1 ! p) = 0 \<and> Mispreds (FBD_Data FBD1 ! p) = 0"
    and "IntraIndex_find FBD f t = Some q \<Longrightarrow> p = q"
proof -
  show "IntraIndex_find FBD1 f t = Some p"
    using g by (auto simp: getOrCreateIntra_def IntraIndex_find_assign split: option.splits)
  show "\<And>f' t'. (f', t') \<noteq> (f, t) \<Longrightarrow> IntraIndex_find FBD1 f' t' = IntraIndex_find FBD f' t'"
    using g by (auto simp: getOrCreateIntra_def IntraIndex_find_assign split: option.splits)
  show "FBD_Name FBD1 = FBD_Name FBD"
    using g by (auto simp: getOrCreateIntra_def IntraIndex_assign_def Let_def split: option.splits)
  show "length (FBD_Data FBD) \<le> length (FBD_Data FBD1)"
    using g by (auto simp: getOrCreateIntra_def IntraIndex_assign_def Let_def split: option.splits)
  show "\<And>q. q < length (FBD_Data FBD) \<Longrightarrow> FBD_Data FBD1 ! q = FBD_Data FBD ! q"
    using g by (auto simp: getOrCreateIntra_def IntraIndex_assign_def Let_def nth_append split: option.splits)
  show "IntraIndex_find FBD f t = None \<Longrightarrow>
           p = length (FBD_Data FBD) \<and> Branches (FBD_Data FBD1 ! p) = 0 \<and> Mispreds (FBD_Data FBD1 ! p) = 0"
    using g by (auto simp: getOrCreateIntra_def IntraIndex_assign_def Let_def mkBranchInfo_def split: option.splits)
  show "IntraIndex_find FBD f t = Some q \<Longrightarrow> p = q"
    using g by (auto simp: getOrCreateIntra_def split: option.splits)
  show "IntraIndex_ok FBD1"
  proof (cases "IntraIndex_find FBD f t")
    case (Some i)
    with g ok show ?thesis by (simp add: getOrCreateIntra_def)
  next
    case None
    define D where "D = FBD\<lparr>FBD_Data := FBD_Data FBD @
                [mkBranchInfo (mkLocation True (FBD_Name FBD) f)
                   (mkLocation True (FBD_Name FBD) t) 0 0]\<rparr>"
    from None g have FBD1: "FBD1 = IntraIndex_assign D f t (length (FBD_Data FBD))"
      by (auto simp: getOrCreateIntra_def D_def)
    have data1: "FBD_Data FBD1 = FBD_Data D" "FBD_Name FBD1 = FBD_Name FBD"
      by (simp_all add: FBD1 IntraIndex_assign_def Let_def D_def)
    have old: "intraEntry_ok FBD1 f' t' q" if "intraEntry_ok FBD f' t' q" for f' t' q
      using that by (auto simp: intraEntry_ok_def data1 D_def nth_append)
    have new: "intraEntry_ok FBD1 f t (length (FBD_Data FBD))"
      by (simp add: intraEntry_ok_def data1 D_def mkBranchInfo_def)
    show ?thesis
      unfolding IntraIndex_ok_iff
    proof (intro allI impI)
      fix f' Inner' t' q
      assume "(f', Inner') \<in> set (IntraIndex FBD1)" "(t', q) \<in> set Inner'"
      then consider "f' = f \<and> t' = t \<and> q = length (FBD_Data FBD)"
        | Inner where "(f', Inner) \<in> set (IntraIndex D)" "(t', q) \<in> set Inner"
        unfolding FBD1 using IntraIndex_assign_entries by blast
      then show "intraEntry_ok FBD1 f' t' q"
      proof cases
        case 1 with new show ?thesis by simp
      next
        case 2
        then have "(f', Inner) \<in> set (IntraIndex FBD)" by (simp add: D_def)
        with ok 2(2) have "intraEntry_ok FBD f' t' q" by (auto simp: IntraIndex_ok_iff)
        then show ?thesis by (rule old)
      qed
    qed
  qed
qed

lemma incrementBranch_simps [simp]:
  "From (incrementBranch BI M) = From BI"
  "To (incrementBranch BI M) = To BI"
  "Branches (incrementBranch BI M) = Branches BI + 1"
  "Mispreds (incrementBranch BI M) = Mispreds BI + (if M then 1 else 0)"
  by (simp_all add: incrementBranch_def Let_def)

lemma intraBranchInfo_Some:
  "IntraIndex_ok FBD \<Longrightarrow> IntraIndex_find FBD f t = Some p \<Longrightarrow>
     intraBranchInfo FBD f t = Some (FBD_Data FBD ! p)"
  by (auto simp: intraBranchInfo_def intraEntry_ok_def dest: IntraIndex_find_ok)

lemma bumpBranchCount_general:
  assumes ok: "IntraIndex_ok FBD"
  shows "\<exists>FBD'. bumpBranchCount FBD f t M = Some FBD' \<and> IntraIndex_ok FBD' \<and>
           intraBranches FBD' f t = intraBranches FBD f t + 1 \<and>
           intraMispreds FBD' f t = intraMispreds FBD f t + (if M then 1 else 0) \<and>
           (\<forall>f' t'. (f', t') \<noteq> (f, t) \<longrightarrow>
              intraBranchInfo FBD' f' t' = intraBranchInfo FBD f' t')"
proof -
  obtain FBD1 p where g: "getOrCreateIntra FBD f t = (FBD1, p)"
    by (cases "getOrCreateIntra FBD f t")
  note G = getOrCreateIntra_ok [OF ok g]
  have p_ok: "intraEntry_ok FBD1 f t p" using G(1,2) by (rule IntraIndex_find_ok)
  then have p_lt: "p < length (FBD_Data FBD1)" by (simp add: intraEntry_ok_def)
  define FBD' where "FBD' = FBD1\<lparr>FBD_Data :=
      (FBD_Data FBD1)[p := incrementBranch (FBD_Data FBD1 ! p) M]\<rparr>"
  have bump: "bumpBranchCount FBD f t M = Some FBD'"
    using g p_lt by (simp add: bumpBranchCount_def FBD'_def)
  have find': "IntraIndex_find FBD' f' t' = IntraIndex_find FBD1 f' t'" for f' t'
    by (simp add: FBD'_def)
  have entry': "intraEntry_ok FBD' f' t' q" if "intraEntry_ok FBD1 f' t' q" for f' t' q
    using that p_lt by (cases "q = p") (auto simp: intraEntry_ok_def FBD'_def)
  have ok': "IntraIndex_ok FBD'"
    using G(1) entry' by (auto simp: IntraIndex_ok_iff FBD'_def)
  have before: "Branches (FBD_Data FBD1 ! p) = intraBranches FBD f t \<and>
                Mispreds (FBD_Data FBD1 ! p) = intraMispreds FBD f t"
  proof (cases "IntraIndex_find FBD f t")
    case None
    with G(7) show ?thesis
      by (auto simp: intraBranches_def intraMispreds_def intraBranchInfo_def)
  next
    case (Some q)
    with G(8) have pq: "p = q" by simp
    from ok Some have "intraEntry_ok FBD f t q" by (rule IntraIndex_find_ok)
    then have "q < length (FBD_Data FBD)" by (simp add: intraEntry_ok_def)
    with G(6) pq Some show ?thesis
      by (simp add: intraBranches_def intraMispreds_def intraBranchInfo_def)
  qed
  have after: "intraBranchInfo FBD' f t = Some (incrementBranch (FBD_Data FBD1 ! p) M)"
    using intraBranchInfo_Some [OF ok', of f t p] G(2) p_lt by (simp add: find') (simp add: FBD'_def)
  have other: "intraBranchInfo FBD' f' t' = intraBranchInfo FBD f' t'" if ne: "(f', t') \<noteq> (f, t)" for f' t'
  proof (cases "IntraIndex_find FBD f' t'")
    case None
    with G(3) [OF ne] show ?thesis by (simp add: intraBranchInfo_def find')
  next
    case (Some q)
    with G(3) [OF ne] have f1: "IntraIndex_find FBD1 f' t' = Some q" by simp
    from ok Some have q_ok: "intraEntry_ok FBD f' t' q" by (rule IntraIndex_find_ok)
    from G(1) f1 have "intraEntry_ok FBD1 f' t' q" by (rule IntraIndex_find_ok)
    with p_ok ne have "q \<noteq> p" by (auto dest: intraEntry_ok_unique)
    moreover from q_ok have q_lt: "q < length (FBD_Data FBD)" by (simp add: intraEntry_ok_def)
    ultimately show ?thesis
      using Some f1 G(5) G(6) [OF q_lt]
      by (simp add: intraBranchInfo_def find') (simp add: FBD'_def)
  qed
  show ?thesis
    using bump ok' before after other
    by (simp add: intraBranches_def intraMispreds_def)
qed


lemma IntraIndex_ok_empty: "IntraIndex_ok FuncBranchData_empty"
  by (simp add: IntraIndex_ok_def FuncBranchData_empty_def)

text \<open>
  Every object that calls of \<^const>\<open>bumpBranchCount\<close> build from the empty one
  satisfies the invariant, and no such call reads outside \<^verbatim>\<open>Data\<close>.
\<close>

lemma bumpBranchCounts_ok:
  "IntraIndex_ok FBD \<Longrightarrow>
     \<exists>FBD'. bumpBranchCounts FBD Calls = Some FBD' \<and> IntraIndex_ok FBD'"
proof (induction Calls arbitrary: FBD)
  case Nil
  then show ?case by simp
next
  case (Cons c Calls)
  obtain f t M where c: "c = (f, t, M)" by (cases c)
  from bumpBranchCount_general [OF Cons.prems, of f t M]
  obtain FBD1 where "bumpBranchCount FBD f t M = Some FBD1" "IntraIndex_ok FBD1" by blast
  with Cons.IH [of FBD1] c show ?case by simp
qed

lemma bumpBranchCounts_example:
  "map_option FBD_Data
     (bumpBranchCounts FuncBranchData_empty
        [(0x10, 0x20, False), (0x10, 0x20, False), (0x10, 0x20, True)]) =
   Some [mkBranchInfo (mkLocation True [] 0x10) (mkLocation True [] 0x20) 1 3]"
  by (simp add: bumpBranchCount_def getOrCreateIntra_def IntraIndex_find_def
      IntraIndex_assign_def incrementBranch_def FuncBranchData_empty_def mkBranchInfo_def
      Let_def)

text \<open>
  C3. From the empty \<^verbatim>\<open>FuncBranchData\<close>, two calls
  \<^verbatim>\<open>bumpBranchCount(0x10, 0x20, false)\<close> and one call
  \<^verbatim>\<open>bumpBranchCount(0x10, 0x20, true)\<close> leave \<^verbatim>\<open>Data\<close> with exactly one
  record, that of the pair (0x10, 0x20), with \<^verbatim>\<open>Branches\<close> 3 and
  \<^verbatim>\<open>Mispreds\<close> 1. In general, on an object whose index is consistent with its
  records, a call succeeds, keeps the index consistent, adds 1 to the branch count of
  its pair, adds 1 to the mispredict count of its pair exactly when the flag is set,
  and leaves the record of every other pair as it was.
\<close>

theorem bumpBranchCount_increments:
  "map_option FBD_Data
     (bumpBranchCounts FuncBranchData_empty
        [(0x10, 0x20, False), (0x10, 0x20, False), (0x10, 0x20, True)]) =
     Some [mkBranchInfo (mkLocation True [] 0x10) (mkLocation True [] 0x20) 1 3] \<and>
   (IntraIndex_ok FBD \<longrightarrow>
     (\<exists>FBD'. bumpBranchCount FBD OffsetFrom OffsetTo Mispred = Some FBD' \<and>
        IntraIndex_ok FBD' \<and>
        intraBranches FBD' OffsetFrom OffsetTo = intraBranches FBD OffsetFrom OffsetTo + 1 \<and>
        intraMispreds FBD' OffsetFrom OffsetTo =
          intraMispreds FBD OffsetFrom OffsetTo + (if Mispred then 1 else 0) \<and>
        (\<forall>f' t'. (f', t') \<noteq> (OffsetFrom, OffsetTo) \<longrightarrow>
           intraBranchInfo FBD' f' t' = intraBranchInfo FBD f' t')))"
  using bumpBranchCounts_example bumpBranchCount_general [of FBD OffsetFrom OffsetTo Mispred]
  by blast

theorem bumpBranchCount_increments_witness:
  "IntraIndex_ok FuncBranchData_empty \<and>
   (\<exists>FBD'. bumpBranchCount FuncBranchData_empty 0x10 0x20 True = Some FBD' \<and>
      IntraIndex_ok FBD' \<and>
      intraBranches FBD' 0x10 0x20 = 1 \<and> intraMispreds FBD' 0x10 0x20 = 1)"
proof -
  have zero: "intraBranches FuncBranchData_empty 0x10 0x20 = 0"
             "intraMispreds FuncBranchData_empty 0x10 0x20 = 0"
    by (simp_all add: intraBranches_def intraMispreds_def intraBranchInfo_def
        IntraIndex_find_def FuncBranchData_empty_def)
  from bumpBranchCount_increments [of FuncBranchData_empty "0x10" "0x20" True]
    IntraIndex_ok_empty
  obtain FBD' where
    "bumpBranchCount FuncBranchData_empty 0x10 0x20 True = Some FBD'" "IntraIndex_ok FBD'"
    "intraBranches FBD' 0x10 0x20 = intraBranches FuncBranchData_empty 0x10 0x20 + 1"
    "intraMispreds FBD' 0x10 0x20 =
       intraMispreds FuncBranchData_empty 0x10 0x20 + (if True then 1 else 0)"
    by blast
  with zero IntraIndex_ok_empty show ?thesis by simp
qed


section \<open>Properties of getSamples\<close>



















end
